theory Spec2Isabelle
  imports Main "HOL-Library.AList" "HOL-Library.Char_ord" "HOL-Library.List_Lexorder"
begin

section \<open>Values, objects and the store\<close>

text \<open>
  The popup script keeps two variables, \<open>logs\<close> and \<open>currentLog\<close>. \<open>logs\<close> is an
  object whose properties are day keys; each property holds a reference to a day-log
  object, whose properties are time keys holding the entry text. \<open>currentLog\<close> holds
  \<open>null\<close> or a reference to a day-log object. Whether two references denote the same
  object matters, so day-log objects live in a store indexed by addresses.

  An object is the list of its own properties in insertion order. Characters stand for
  code units below 256.
\<close>

type_synonym ref = nat
type_synonym dayLog = "(string \<times> string) list"
type_synonym collection = "(string \<times> dayLog) list"

datatype error = TypeError

text \<open>\<open>obj[k]\<close>: the value of the property, or \<open>undefined\<close> (\<open>None\<close>).\<close>

definition getProp :: "('k \<times> 'v) list \<Rightarrow> 'k \<Rightarrow> 'v option" where
  "getProp obj k = map_of obj k"

text \<open>\<open>obj[k] = v\<close>: an existing property keeps its place, a new one goes last.\<close>

definition setProp :: "'k \<Rightarrow> 'v \<Rightarrow> ('k \<times> 'v) list \<Rightarrow> ('k \<times> 'v) list" where
  "setProp k v obj = AList.update k v obj"

text \<open>\<open>!v\<close> for a value that is \<open>undefined\<close> or a string: only the empty string is falsy.\<close>

definition falsy :: "string option \<Rightarrow> bool" where
  "falsy v = (case v of None \<Rightarrow> True | Some str \<Rightarrow> str = [])"

text \<open>\<open>str.slice(a, b)\<close> for \<open>0 \<le> a \<le> b\<close>.\<close>

definition slice :: "nat \<Rightarrow> nat \<Rightarrow> string \<Rightarrow> string" where
  "slice a b str = take (b - a) (drop a str)"

text \<open>
  \<open>str.trim()\<close> removes white space and line terminators at both ends: among the code
  units below 256 these are TAB, LF, VT, FF, CR, SPACE and NBSP.
\<close>

definition isWhiteSpace :: "char \<Rightarrow> bool" where
  "isWhiteSpace c = (of_char c \<in> {9, 10, 11, 12, 13, 32, 160 :: nat})"

definition trim :: "string \<Rightarrow> string" where
  "trim str = rev (dropWhile isWhiteSpace (rev (dropWhile isWhiteSpace str)))"

section \<open>The clock\<close>

text \<open>
  \<open>new Date()\<close> is read from the environment: a time value in milliseconds since the
  epoch (UTC) and the offset of local time from UTC in effect then, in milliseconds.
  The calendar functions are those of ECMA-262 (\<open>Day\<close>, \<open>HourFromTime\<close>, ...); year,
  month and day of the month are computed from the day number in the proleptic
  Gregorian calendar.
\<close>

record Date =
  timeValue :: int
  localTZA :: int

definition msPerDay :: int where
  "msPerDay = 86400000"

definition Day :: "int \<Rightarrow> int" where
  "Day t = t div msPerDay"

definition HourFromTime :: "int \<Rightarrow> int" where
  "HourFromTime t = (t div 3600000) mod 24"

definition MinFromTime :: "int \<Rightarrow> int" where
  "MinFromTime t = (t div 60000) mod 60"

definition SecFromTime :: "int \<Rightarrow> int" where
  "SecFromTime t = (t div 1000) mod 60"

definition msFromTime :: "int \<Rightarrow> int" where
  "msFromTime t = t mod 1000"

text \<open>Year, month (1 to 12) and day of the month (1 to 31) of a day number.\<close>

definition civil :: "int \<Rightarrow> int \<times> int \<times> int" where
  "civil days =
     (let z = days + 719468;
          era = z div 146097;
          doe = z - era * 146097;
          yoe = (doe - doe div 1460 + doe div 36524 - doe div 146096) div 365;
          doy = doe - (365 * yoe + yoe div 4 - yoe div 100);
          mp = (5 * doy + 2) div 153;
          d = doy - (153 * mp + 2) div 5 + 1;
          m = (if mp < 10 then mp + 3 else mp - 9);
          y = yoe + era * 400
      in (if m \<le> 2 then y + 1 else y, m, d))"

definition digit :: "int \<Rightarrow> char" where
  "digit n = ''0123456789'' ! nat (n mod 10)"

text \<open>The last \<open>w\<close> decimal digits of a non-negative number, zero-padded.\<close>

fun pad :: "nat \<Rightarrow> int \<Rightarrow> string" where
  "pad 0 n = []"
| "pad (Suc w) n = pad w (n div 10) @ [digit n]"

definition dateString :: "int \<times> int \<times> int \<Rightarrow> string" where
  "dateString ymd =
     (case ymd of (y, m, d) \<Rightarrow>
        (if 0 \<le> y \<and> y \<le> 9999 then pad 4 y
         else (if y < 0 then ''-'' else ''+'') @ pad 6 \<bar>y\<bar>)
        @ ''-'' @ pad 2 m @ ''-'' @ pad 2 d)"

definition timeString :: "int \<Rightarrow> string" where
  "timeString t =
     pad 2 (HourFromTime t) @ '':'' @ pad 2 (MinFromTime t) @ '':'' @ pad 2 (SecFromTime t)"

text \<open>\<open>toISOString()\<close>: the UTC date and time, \<open>YYYY-MM-DDTHH:mm:ss.sssZ\<close>.\<close>

definition toISOString :: "Date \<Rightarrow> string" where
  "toISOString d =
     (let t = timeValue d
      in dateString (civil (Day t)) @ ''T'' @ timeString t @ ''.'' @ pad 3 (msFromTime t) @ ''Z'')"

text \<open>
  \<open>toTimeString()\<close>: the local time of day followed by the offset,
  \<open>HH:MM:SS GMT+hhmm\<close> (the name of the time zone that an implementation may append
  is left out).
\<close>

definition toTimeString :: "Date \<Rightarrow> string" where
  "toTimeString d =
     (let t = timeValue d + localTZA d;
          off = \<bar>localTZA d\<bar> div 60000
      in timeString t @ '' GMT'' @ (if localTZA d < 0 then ''-'' else ''+'')
         @ pad 2 (off div 60) @ pad 2 (off mod 60))"

section \<open>Sorting\<close>

text \<open>
  \<open>a.localeCompare(b)\<close>, for two keys of the same format only. Day keys and time keys
  are digits with \<open>-\<close> and \<open>:\<close> at fixed places; on two such strings the collation of the
  platform is the order of the code units, which is what this definition compares. On
  other strings the collation differs (it puts \<open>a\<close> before \<open>B\<close>), so every result
  below about the order of the rendered lists assumes that the keys of the state have
  these formats (\<open>wellFormedKeys\<close>).
\<close>

definition localeCompare :: "string \<Rightarrow> string \<Rightarrow> int" where
  "localeCompare a b = (if a < b then - 1 else if a = b then 0 else 1)"

text \<open>
  \<open>Array.prototype.sort\<close> with a comparator is stable: an element stays in front of a
  later one unless the comparator puts it behind.
\<close>

fun insertBy :: "('a \<Rightarrow> 'a \<Rightarrow> int) \<Rightarrow> 'a \<Rightarrow> 'a list \<Rightarrow> 'a list" where
  "insertBy cmp x [] = [x]"
| "insertBy cmp x (y # ys) = (if cmp x y \<le> 0 then x # y # ys else y # insertBy cmp x ys)"

definition sortBy :: "('a \<Rightarrow> 'a \<Rightarrow> int) \<Rightarrow> 'a list \<Rightarrow> 'a list" where
  "sortBy cmp xs = foldr (insertBy cmp) xs []"

text \<open>The comparator of the three loops: \<open>([keyA], [keyB]) => keyB.localeCompare(keyA)\<close>.\<close>

definition byKeyDesc :: "string \<times> 'v \<Rightarrow> string \<times> 'v \<Rightarrow> int" where
  "byKeyDesc a b = localeCompare (fst b) (fst a)"

section \<open>The state of the panel\<close>

text \<open>What one call of \<open>chrome.storage.local.set({ logs, currentLog })\<close> stores, by value.\<close>

record stored =
  stored_logs :: collection
  stored_currentLog :: "dayLog option"

text \<open>What \<open>updateUIState\<close> leaves on the page.\<close>

record page =
  addLog_disabled :: bool
  showLogs_disabled :: bool
  todayList :: "(string \<times> string) list"
  allList :: "(string \<times> (string \<times> string) list) list"

record state =
  heap :: "ref \<Rightarrow> dayLog"
  nextRef :: ref
  logs :: "(string \<times> ref) list"
  currentLog :: "ref option"
  writes :: "stored list"
  panel :: page

text \<open>\<open>let logs = {}; let currentLog = null;\<close> and an empty page.\<close>

definition initial :: state where
  "initial = \<lparr>heap = (\<lambda>_. []), nextRef = 0, logs = [], currentLog = None, writes = [],
     panel = \<lparr>addLog_disabled = False, showLogs_disabled = False, todayList = [], allList = []\<rparr>\<rparr>"

text \<open>A new object: it takes the next free address.\<close>

definition alloc :: "dayLog \<Rightarrow> state \<Rightarrow> ref \<times> state" where
  "alloc obj s = (nextRef s, s\<lparr>heap := (heap s)(nextRef s := obj), nextRef := Suc (nextRef s)\<rparr>)"

text \<open>
  The value that storage hands to the callback is a fresh copy: every day-log of the
  persisted collection becomes an object of its own.
\<close>

fun load :: "collection \<Rightarrow> state \<Rightarrow> (string \<times> ref) list \<times> state" where
  "load [] s = ([], s)"
| "load ((k, v) # kvs) s =
     (case alloc v s of (r, s1) \<Rightarrow>
        (case load kvs s1 of (ls, s2) \<Rightarrow> ((k, r) # ls, s2)))"

text \<open>The collection by value, as it is serialised for storage.\<close>

definition serialize :: "state \<Rightarrow> collection" where
  "serialize s = map (\<lambda>(k, r). (k, heap s r)) (logs s)"

section \<open>The functions of the script\<close>

text \<open>
  What \<open>updateUIState\<close> puts on the page when \<open>currentLog\<close> refers to the object
  at \<open>r\<close>: the two buttons, the list of today and the list of all days.
\<close>

definition render :: "state \<Rightarrow> ref \<Rightarrow> page" where
  "render s r =
     (let hasCurrentLog = (length (heap s r) > 0);
          hasLogs = (length (logs s) > 0)
      in \<lparr>addLog_disabled = \<not> hasCurrentLog,
          showLogs_disabled = \<not> hasLogs,
          todayList = (if hasCurrentLog then sortBy byKeyDesc (heap s r) else []),
          allList = (if hasLogs
             then map (\<lambda>(k, r'). (k, sortBy byKeyDesc (heap s r'))) (sortBy byKeyDesc (logs s))
             else [])\<rparr>)"

text \<open>\<open>updateUIState\<close>: \<open>Object.keys(currentLog)\<close> throws when \<open>currentLog\<close> is \<open>null\<close>.\<close>

definition updateUIState :: "state \<Rightarrow> error + state" where
  "updateUIState s =
     (case currentLog s of
        None \<Rightarrow> Inl TypeError
      | Some r \<Rightarrow> Inr (s\<lparr>panel := render s r\<rparr>))"

text \<open>The object literal \<open>{ logs, currentLog }\<close>, by value.\<close>

definition snapshot :: "state \<Rightarrow> stored" where
  "snapshot s = \<lparr>stored_logs = serialize s, stored_currentLog = map_option (heap s) (currentLog s)\<rparr>"

definition saveState :: "state \<Rightarrow> error + state" where
  "saveState s = updateUIState (s\<lparr>writes := writes s @ [snapshot s]\<rparr>)"

text \<open>\<open>logEntry\<close>: \<open>currentLog[currentTime]\<close> throws when \<open>currentLog\<close> is \<open>null\<close>.\<close>

definition currentTime :: "Date \<Rightarrow> string" where
  "currentTime d = slice 0 8 (toTimeString d)"

definition logEntry :: "string \<Rightarrow> Date \<Rightarrow> state \<Rightarrow> error + state" where
  "logEntry newLog d s =
     (case currentLog s of
        None \<Rightarrow> Inl TypeError
      | Some r \<Rightarrow>
          (let s1 = (if falsy (getProp (heap s r) (currentTime d))
                     then s\<lparr>heap := (heap s)(r := setProp (currentTime d) [] (heap s r))\<rparr>
                     else s);
               s2 = s1\<lparr>heap := (heap s1)(r := setProp (currentTime d) newLog (heap s1 r))\<rparr>
           in saveState s2))"

record keyEvent =
  key :: string
  shiftKey :: bool

text \<open>The two listeners; \<open>val\<close> is \<open>logInput.value\<close>.\<close>

definition keydown :: "keyEvent \<Rightarrow> string \<Rightarrow> Date \<Rightarrow> state \<Rightarrow> error + state" where
  "keydown e val d s =
     (if key e = ''Enter'' \<and> \<not> shiftKey e
      then (let newLog = trim val in if newLog \<noteq> [] then logEntry newLog d s else Inr s)
      else Inr s)"

definition click :: "string \<Rightarrow> Date \<Rightarrow> state \<Rightarrow> error + state" where
  "click val d s = (let newLog = trim val in if newLog \<noteq> [] then logEntry newLog d s else Inr s)"

text \<open>\<open>result.logs || {}\<close>, copied into the store, becomes the value of \<open>logs\<close>.\<close>

definition assignLogs :: "collection option \<Rightarrow> state \<Rightarrow> state" where
  "assignLogs result_logs s =
     (case load (case result_logs of None \<Rightarrow> [] | Some c \<Rightarrow> c) s of
        (ls, s1) \<Rightarrow> s1\<lparr>logs := ls\<rparr>)"

text \<open>\<open>logs[todayKey] = {}\<close>.\<close>

definition newDay :: "string \<Rightarrow> state \<Rightarrow> state" where
  "newDay todayKey s = (case alloc [] s of (r, s1) \<Rightarrow> s1\<lparr>logs := setProp todayKey r (logs s1)\<rparr>)"

text \<open>\<open>Object.keys(logs).sort().at(-1)\<close>: the greatest key, \<open>undefined\<close> when there is none.\<close>

definition latestKey :: "state \<Rightarrow> string option" where
  "latestKey s = (let ks = sort (map fst (logs s)) in if ks = [] then None else Some (last ks))"

definition todayKey :: "Date \<Rightarrow> string" where
  "todayKey d = slice 0 10 (toISOString d)"

text \<open>The storage callback of \<open>src/popup.js\<close>.\<close>

definition popup_init :: "collection option \<Rightarrow> Date \<Rightarrow> state \<Rightarrow> error + state" where
  "popup_init result_logs d s =
     (let s1 = assignLogs result_logs s;
          s2 = (if falsy (latestKey s1) then newDay (todayKey d) s1 else s1);
          s3 = (case getProp (logs s2) (todayKey d) of
                  Some r \<Rightarrow> s2\<lparr>currentLog := Some r\<rparr>
                | None \<Rightarrow> (case alloc [] s2 of (r, s') \<Rightarrow> s'\<lparr>currentLog := Some r\<rparr>))
      in saveState s3)"

text \<open>The storage callback of the commented variant, \<open>src/unnamed/part_000\<close>.\<close>

definition part_000_init :: "collection option \<Rightarrow> Date \<Rightarrow> state \<Rightarrow> error + state" where
  "part_000_init result_logs d s =
     (let s1 = assignLogs result_logs s;
          s2 = (if getProp (logs s1) (todayKey d) = None then newDay (todayKey d) s1 else s1);
          s3 = s2\<lparr>currentLog := getProp (logs s2) (todayKey d)\<rparr>
      in saveState s3)"

section \<open>The formats of the keys\<close>

text \<open>
  The keys that the script writes: a time key is \<open>HH:MM:SS\<close> and a day key is
  \<open>YYYY-MM-DD\<close>, digits with the separators at fixed places. In a format a \<open>9\<close> stands
  for any digit and every other character for itself.
\<close>

definition isDigit :: "char \<Rightarrow> bool" where
  "isDigit c = (c \<in> set ''0123456789'')"

definition matchesFormat :: "string \<Rightarrow> string \<Rightarrow> bool" where
  "matchesFormat fmt k = list_all2 (\<lambda>f c. if f = CHR ''9'' then isDigit c else c = f) fmt k"

definition isTimeKey :: "string \<Rightarrow> bool" where
  "isTimeKey k = matchesFormat ''99:99:99'' k"

definition isDayKey :: "string \<Rightarrow> bool" where
  "isDayKey k = matchesFormat ''9999-99-99'' k"

text \<open>
  Every key of the state has its format: the days of the collection, the time keys of
  each of its day-logs and the time keys of the current day-log.
\<close>

definition wellFormedKeys :: "state \<Rightarrow> bool" where
  "wellFormedKeys s =
     (list_all (\<lambda>(k, r). isDayKey k \<and> list_all (\<lambda>e. isTimeKey (fst e)) (heap s r)) (logs s)
      \<and> (case currentLog s of
            None \<Rightarrow> True
          | Some r \<Rightarrow> list_all (\<lambda>e. isTimeKey (fst e)) (heap s r)))"

section \<open>The local calendar date\<close>

text \<open>
  The day key as the specification describes it: the calendar date of the local time,
  in the same format. It is compared with \<open>todayKey\<close> below.
\<close>

definition spec_localDayKey :: "Date \<Rightarrow> string" where
  "spec_localDayKey d = slice 0 10 (dateString (civil (Day (timeValue d + localTZA d))))"

section \<open>Sample inputs\<close>

text \<open>Storage holds one earlier day, \<open>{"2024-01-15": {"09:00:00": "x"}}\<close>.\<close>

definition stored_yesterday :: "collection option" where
  "stored_yesterday = Some [(''2024-01-15'', [(''09:00:00'', ''x'')])]"

text \<open>2024-01-16T10:00:00Z where local time is one hour ahead of UTC.\<close>

definition date_morning :: Date where
  "date_morning = \<lparr>timeValue = 1705399200000, localTZA = 3600000\<rparr>"

text \<open>2024-01-16T23:30:00Z where local time is one hour ahead of UTC.\<close>

definition date_late :: Date where
  "date_late = \<lparr>timeValue = 1705447800000, localTZA = 3600000\<rparr>"

text \<open>Two days in the collection; the current day has three entries.\<close>

definition state_two_days :: state where
  "state_two_days =
     \<lparr>heap = (\<lambda>_. [])
         (0 := [(''10:30:00'', ''p'')],
          1 := [(''09:00:00'', ''a''), (''14:20:00'', ''b''), (''08:15:00'', ''c'')]),
      nextRef = 2,
      logs = [(''2024-01-15'', 0), (''2024-01-16'', 1)],
      currentLog = Some 1,
      writes = [],
      panel = \<lparr>addLog_disabled = False, showLogs_disabled = False, todayList = [], allList = []\<rparr>\<rparr>"

text \<open>The same second as \<open>date_morning\<close>, 300 milliseconds later.\<close>

definition date_morning_later :: Date where
  "date_morning_later = \<lparr>timeValue = 1705399200300, localTZA = 3600000\<rparr>"

text \<open>2024-01-16T22:00:00Z where local time is one hour ahead of UTC: 23:00:00 on that day.\<close>

definition date_evening :: Date where
  "date_evening = \<lparr>timeValue = 1705442400000, localTZA = 3600000\<rparr>"

text \<open>What storage holds after a first session with one entry at \<open>date_evening\<close>.\<close>

definition stored_evening :: "collection option" where
  "stored_evening = Some [(''2024-01-16'', [(''23:00:00'', ''x'')])]"

text \<open>The Enter key without Shift.\<close>

definition enter :: keyEvent where
  "enter = \<lparr>key = ''Enter'', shiftKey = False\<rparr>"


section \<open>Properties and assignments\<close>

lemma setProp_twice: "setProp k v (setProp k w obj) = setProp k v obj"
  by (simp add: setProp_def)

lemma getProp_setProp: "getProp (setProp k v obj) k' = (if k' = k then Some v else getProp obj k')"
  by (simp add: getProp_def setProp_def update_conv')

lemma keys_setProp: "fst ` set (setProp k v obj) = insert k (fst ` set obj)"
  by (simp add: setProp_def dom_update)

lemma distinct_setProp: "distinct (map fst obj) \<Longrightarrow> distinct (map fst (setProp k v obj))"
  by (simp add: setProp_def distinct_update)

lemma filter_setProp:
  "distinct (map fst obj) \<Longrightarrow> filter (\<lambda>e. fst e = k) (setProp k v obj) = [(k, v)]"
proof (induction obj)
  case Nil
  then show ?case by (simp add: setProp_def)
next
  case (Cons p ps)
  show ?case
  proof (cases "fst p = k")
    case True
    with Cons.prems have "k \<notin> fst ` set ps" by auto
    then have "filter (\<lambda>e. fst e = k) ps = []" by (auto simp: filter_empty_conv)
    with True show ?thesis by (simp add: setProp_def)
  next
    case False
    with Cons show ?thesis by (simp add: setProp_def)
  qed
qed

lemma length_setProp_present:
  "k \<in> fst ` set obj \<Longrightarrow> length (setProp k v obj) = length obj"
  by (induction obj) (auto simp: setProp_def)

lemma getProp_serialize: "getProp (serialize s) k = map_option (heap s) (getProp (logs s) k)"
  by (simp add: getProp_def serialize_def map_of_map)

section \<open>Saving and logging\<close>

lemma updateUIState_ok:
  "currentLog s = Some r \<Longrightarrow> updateUIState s = Inr (s\<lparr>panel := render s r\<rparr>)"
  by (simp add: updateUIState_def)

lemma saveState_ok:
  "currentLog s = Some r \<Longrightarrow>
   saveState s = Inr (s\<lparr>writes := writes s @ [snapshot s], panel := render s r\<rparr>)"
  by (simp add: saveState_def updateUIState_def render_def serialize_def)

lemma logEntry_saves:
  "currentLog s = Some r \<Longrightarrow>
   logEntry newLog d s =
     saveState (s\<lparr>heap := (heap s)(r := setProp (currentTime d) newLog (heap s r))\<rparr>)"
  by (simp add: logEntry_def Let_def setProp_twice)

lemma logEntry_null: "currentLog s = None \<Longrightarrow> logEntry newLog d s = Inl TypeError"
  by (simp add: logEntry_def)

text \<open>The state after a successful \<open>logEntry\<close>, field by field.\<close>

lemma logEntry_ok:
  assumes "currentLog s = Some r"
  shows "\<exists>s'. logEntry newLog d s = Inr s'
    \<and> heap s' = (heap s)(r := setProp (currentTime d) newLog (heap s r))
    \<and> logs s' = logs s \<and> currentLog s' = Some r \<and> nextRef s' = nextRef s
    \<and> writes s' = writes s @ [snapshot s']
    \<and> panel s' = render s' r"
proof -
  let ?s2 = "s\<lparr>heap := (heap s)(r := setProp (currentTime d) newLog (heap s r))\<rparr>"
  have cur: "currentLog ?s2 = Some r" using assms by simp
  have "logEntry newLog d s = saveState ?s2" using assms by (rule logEntry_saves)
  also have "\<dots> = Inr (?s2\<lparr>writes := writes ?s2 @ [snapshot ?s2], panel := render ?s2 r\<rparr>)"
    using cur by (rule saveState_ok)
  finally show ?thesis
    using assms by (simp add: snapshot_def serialize_def render_def)
qed

lemma click_nonblank: "trim val \<noteq> [] \<Longrightarrow> click val d s = logEntry (trim val) d s"
  by (simp add: click_def)

lemma keydown_enter_nonblank:
  "trim val \<noteq> [] \<Longrightarrow>
   keydown \<lparr>key = ''Enter'', shiftKey = False\<rparr> val d s = logEntry (trim val) d s"
  by (simp add: keydown_def)

lemma keydown_cases: "keydown e val d s = click val d s \<or> keydown e val d s = Inr s"
  by (simp add: keydown_def click_def)

text \<open>Trimming leaves nothing exactly when every character is white space.\<close>

lemma trim_blank: "trim val = [] \<longleftrightarrow> list_all isWhiteSpace val"
proof
  assume "trim val = []"
  then have "dropWhile isWhiteSpace (rev (dropWhile isWhiteSpace val)) = []"
    by (simp add: trim_def)
  then have all: "\<forall>c \<in> set (dropWhile isWhiteSpace val). isWhiteSpace c"
    by (simp add: dropWhile_eq_Nil_conv)
  have "dropWhile isWhiteSpace val = []"
  proof (rule ccontr)
    assume ne: "dropWhile isWhiteSpace val \<noteq> []"
    then have "\<not> isWhiteSpace (hd (dropWhile isWhiteSpace val))" by (rule hd_dropWhile)
    moreover from ne have "hd (dropWhile isWhiteSpace val) \<in> set (dropWhile isWhiteSpace val)"
      by (rule hd_in_set)
    ultimately show False using all by blast
  qed
  then show "list_all isWhiteSpace val"
    by (simp add: dropWhile_eq_Nil_conv list_all_iff)
next
  assume "list_all isWhiteSpace val"
  then have d: "dropWhile isWhiteSpace val = []"
    by (simp add: dropWhile_eq_Nil_conv list_all_iff)
  show "trim val = []" unfolding trim_def d by simp
qed

section \<open>Recording entries\<close>

text \<open>
  C6. A submission that is empty or has only white space, so that trimming leaves
  nothing, changes nothing: both listeners return the state as it was; there is no new
  entry and no write to storage.
\<close>

theorem blank_submission_is_noop:
  assumes "list_all isWhiteSpace val"
  shows "trim val = [] \<and> click val d s = Inr s \<and> keydown e val d s = Inr s"
proof -
  from assms have "trim val = []" by (simp add: trim_blank)
  then show ?thesis by (simp add: click_def keydown_def)
qed

theorem blank_submission_is_noop_witness:
  "list_all isWhiteSpace ''   '' \<and> list_all isWhiteSpace ''''
     \<and> click ''   '' date_morning state_two_days = Inr state_two_days
     \<and> keydown \<lparr>key = ''Enter'', shiftKey = False\<rparr> ''   '' date_morning state_two_days
         = Inr state_two_days
     \<and> click '''' date_morning state_two_days = Inr state_two_days
     \<and> keydown \<lparr>key = ''Enter'', shiftKey = False\<rparr> '''' date_morning state_two_days
         = Inr state_two_days"
proof -
  have h1: "list_all isWhiteSpace ''   ''" by (simp add: isWhiteSpace_def)
  have h2: "list_all isWhiteSpace ''''" by simp
  from blank_submission_is_noop [OF h1] blank_submission_is_noop [OF h2] h1 h2
  show ?thesis by blast
qed

text \<open>
  C8. A submission that is not blank makes exactly one write to storage, after the
  entry is in place: the whole collection by value under \<open>logs\<close> and the current day-log
  by value under \<open>currentLog\<close>.
\<close>

theorem submission_writes_whole_collection:
  assumes "currentLog s = Some r" and "trim val \<noteq> []"
  shows "\<exists>s'. click val d s = Inr s'
    \<and> keydown \<lparr>key = ''Enter'', shiftKey = False\<rparr> val d s = Inr s'
    \<and> writes s' = writes s @
          [\<lparr>stored_logs = map (\<lambda>(k, r'). (k, heap s' r')) (logs s'),
            stored_currentLog = Some (heap s' r)\<rparr>]
    \<and> getProp (heap s' r) (currentTime d) = Some (trim val)"
proof -
  from logEntry_ok [OF assms(1)] obtain s' where
    s': "logEntry (trim val) d s = Inr s'"
        "heap s' = (heap s)(r := setProp (currentTime d) (trim val) (heap s r))"
        "currentLog s' = Some r" "writes s' = writes s @ [snapshot s']"
    by blast
  have "click val d s = Inr s'" using assms(2) s'(1) by (simp add: click_nonblank)
  moreover have "keydown \<lparr>key = ''Enter'', shiftKey = False\<rparr> val d s = Inr s'"
    using assms(2) s'(1) by (simp add: keydown_enter_nonblank)
  moreover have "snapshot s' = \<lparr>stored_logs = map (\<lambda>(k, r'). (k, heap s' r')) (logs s'),
            stored_currentLog = Some (heap s' r)\<rparr>"
    using s'(3) by (simp add: snapshot_def serialize_def)
  moreover have "getProp (heap s' r) (currentTime d) = Some (trim val)"
    using s'(2) by (simp add: getProp_setProp)
  ultimately show ?thesis using s'(4) by auto
qed

theorem submission_writes_whole_collection_witness:
  "currentLog state_two_days = Some 1 \<and> trim ''a'' \<noteq> [] \<and>
   (\<exists>s'. click ''a'' date_morning state_two_days = Inr s'
    \<and> keydown \<lparr>key = ''Enter'', shiftKey = False\<rparr> ''a'' date_morning state_two_days = Inr s'
    \<and> writes s' = writes state_two_days @
          [\<lparr>stored_logs = map (\<lambda>(k, r'). (k, heap s' r')) (logs s'),
            stored_currentLog = Some (heap s' 1)\<rparr>]
    \<and> getProp (heap s' 1) (currentTime date_morning) = Some (trim ''a''))"
proof -
  have h1: "currentLog state_two_days = Some 1" by (simp add: state_two_days_def)
  have h2: "trim ''a'' \<noteq> []" by (simp add: trim_def isWhiteSpace_def)
  from submission_writes_whole_collection [OF h1 h2, of date_morning] h1 h2
  show ?thesis by blast
qed

text \<open>
  C9. A submission leaves the collection's days and every day-log object other than
  the current one as they were; in the current day-log every other time key keeps its
  value and no key disappears. A day of the collection that is not the current-day
  object reads the same afterwards. This is the state after a click; a key press ends
  in the same state or changes nothing.
\<close>

theorem submission_frame:
  assumes "currentLog s = Some r"
  shows "\<exists>s'. click val d s = Inr s'
    \<and> (keydown e val d s = Inr s' \<or> keydown e val d s = Inr s)
    \<and> logs s' = logs s \<and> currentLog s' = currentLog s
    \<and> (\<forall>r'. r' \<noteq> r \<longrightarrow> heap s' r' = heap s r')
    \<and> (\<forall>t. t \<noteq> currentTime d \<longrightarrow> getProp (heap s' r) t = getProp (heap s r) t)
    \<and> fst ` set (heap s r) \<subseteq> fst ` set (heap s' r)
    \<and> (\<forall>k. getProp (logs s) k \<noteq> Some r \<longrightarrow>
           getProp (serialize s') k = getProp (serialize s) k)"
proof (cases "trim val = []")
  case True
  then have "click val d s = Inr s" "keydown e val d s = Inr s"
    by (simp_all add: click_def keydown_def)
  then show ?thesis by auto
next
  case False
  from logEntry_ok [OF assms] obtain s' where
    s': "logEntry (trim val) d s = Inr s'"
        "heap s' = (heap s)(r := setProp (currentTime d) (trim val) (heap s r))"
        "logs s' = logs s" "currentLog s' = Some r"
    by blast
  have c: "click val d s = Inr s'" using False s'(1) by (simp add: click_nonblank)
  have kd: "keydown e val d s = Inr s' \<or> keydown e val d s = Inr s"
    using keydown_cases [of e val d s] c by auto
  have other: "\<forall>r'. r' \<noteq> r \<longrightarrow> heap s' r' = heap s r'" using s'(2) by simp
  have keep: "\<forall>t. t \<noteq> currentTime d \<longrightarrow> getProp (heap s' r) t = getProp (heap s r) t"
    using s'(2) by (simp add: getProp_setProp)
  have keys: "fst ` set (heap s r) \<subseteq> fst ` set (heap s' r)"
    using s'(2) by (auto simp: keys_setProp)
  have days: "\<forall>k. getProp (logs s) k \<noteq> Some r \<longrightarrow>
           getProp (serialize s') k = getProp (serialize s) k"
  proof (intro allI impI)
    fix k assume ne: "getProp (logs s) k \<noteq> Some r"
    show "getProp (serialize s') k = getProp (serialize s) k"
    proof (cases "getProp (logs s) k")
      case None
      then show ?thesis using s'(3) by (simp add: getProp_serialize)
    next
      case (Some r')
      with ne have "r' \<noteq> r" by simp
      with Some other show ?thesis using s'(3) by (simp add: getProp_serialize)
    qed
  qed
  from c kd s'(3) s'(4) assms other keep keys days show ?thesis by auto
qed

theorem submission_frame_witness:
  "currentLog state_two_days = Some 1 \<and>
   (\<exists>s'. click ''a'' date_morning state_two_days = Inr s'
    \<and> (keydown \<lparr>key = ''Enter'', shiftKey = True\<rparr> ''a'' date_morning state_two_days = Inr s'
       \<or> keydown \<lparr>key = ''Enter'', shiftKey = True\<rparr> ''a'' date_morning state_two_days
            = Inr state_two_days)
    \<and> logs s' = logs state_two_days \<and> currentLog s' = currentLog state_two_days
    \<and> (\<forall>r'. r' \<noteq> 1 \<longrightarrow> heap s' r' = heap state_two_days r')
    \<and> (\<forall>t. t \<noteq> currentTime date_morning \<longrightarrow>
           getProp (heap s' 1) t = getProp (heap state_two_days 1) t)
    \<and> fst ` set (heap state_two_days 1) \<subseteq> fst ` set (heap s' 1)
    \<and> (\<forall>k. getProp (logs state_two_days) k \<noteq> Some 1 \<longrightarrow>
           getProp (serialize s') k = getProp (serialize state_two_days) k))"
proof -
  have h1: "currentLog state_two_days = Some 1" by (simp add: state_two_days_def)
  from submission_frame [OF h1, of "''a''" date_morning "\<lparr>key = ''Enter'', shiftKey = True\<rparr>"] h1
  show ?thesis by blast
qed

text \<open>
  C5. Two submissions whose time keys are equal leave one entry under that key in the
  current day-log, and its value is the trimmed text of the second.
\<close>

theorem same_second_last_write_wins:
  assumes "currentLog s = Some r" and "distinct (map fst (heap s r))"
    and "trim v1 \<noteq> []" and "trim v2 \<noteq> []" and "currentTime d1 = currentTime d2"
  shows "\<exists>s1 s2. click v1 d1 s = Inr s1 \<and> click v2 d2 s1 = Inr s2
    \<and> keydown \<lparr>key = ''Enter'', shiftKey = False\<rparr> v1 d1 s = Inr s1
    \<and> keydown \<lparr>key = ''Enter'', shiftKey = False\<rparr> v2 d2 s1 = Inr s2
    \<and> currentLog s2 = Some r
    \<and> filter (\<lambda>e. fst e = currentTime d2) (heap s2 r) = [(currentTime d2, trim v2)]
    \<and> getProp (heap s2 r) (currentTime d2) = Some (trim v2)
    \<and> length (heap s2 r) = length (heap s1 r)"
proof -
  from logEntry_ok [OF assms(1)] obtain s1 where
    s1: "logEntry (trim v1) d1 s = Inr s1"
        "heap s1 = (heap s)(r := setProp (currentTime d1) (trim v1) (heap s r))"
        "currentLog s1 = Some r"
    by blast
  from logEntry_ok [OF s1(3)] obtain s2 where
    s2: "logEntry (trim v2) d2 s1 = Inr s2"
        "heap s2 = (heap s1)(r := setProp (currentTime d2) (trim v2) (heap s1 r))"
        "currentLog s2 = Some r"
    by blast
  have d1: "distinct (map fst (heap s1 r))"
    using s1(2) assms(2) by (simp add: distinct_setProp)
  have one: "filter (\<lambda>e. fst e = currentTime d2) (heap s2 r) = [(currentTime d2, trim v2)]"
    using s2(2) d1 by (simp add: filter_setProp)
  have val: "getProp (heap s2 r) (currentTime d2) = Some (trim v2)"
    using s2(2) by (simp add: getProp_setProp)
  have "heap s2 r = setProp (currentTime d2) (trim v2) (setProp (currentTime d2) (trim v1) (heap s r))"
    using s1(2) s2(2) assms(5) by simp
  moreover have "currentTime d2 \<in> fst ` set (setProp (currentTime d2) (trim v1) (heap s r))"
    by (simp add: keys_setProp)
  ultimately have len: "length (heap s2 r) = length (heap s1 r)"
    using s1(2) assms(5) by (simp add: length_setProp_present)
  have "click v1 d1 s = Inr s1" using assms(3) s1(1) by (simp add: click_nonblank)
  moreover have "click v2 d2 s1 = Inr s2" using assms(4) s2(1) by (simp add: click_nonblank)
  moreover have "keydown \<lparr>key = ''Enter'', shiftKey = False\<rparr> v1 d1 s = Inr s1"
    using assms(3) s1(1) by (simp add: keydown_enter_nonblank)
  moreover have "keydown \<lparr>key = ''Enter'', shiftKey = False\<rparr> v2 d2 s1 = Inr s2"
    using assms(4) s2(1) by (simp add: keydown_enter_nonblank)
  ultimately show ?thesis using s2(3) one val len by blast
qed

theorem same_second_last_write_wins_witness:
  "currentLog state_two_days = Some 1 \<and> distinct (map fst (heap state_two_days 1))
   \<and> trim ''a'' \<noteq> [] \<and> trim '' b '' \<noteq> []
   \<and> currentTime date_morning = currentTime date_morning_later
   \<and> (\<exists>s1 s2. click ''a'' date_morning state_two_days = Inr s1
        \<and> click '' b '' date_morning_later s1 = Inr s2
        \<and> keydown \<lparr>key = ''Enter'', shiftKey = False\<rparr> ''a'' date_morning state_two_days = Inr s1
        \<and> keydown \<lparr>key = ''Enter'', shiftKey = False\<rparr> '' b '' date_morning_later s1 = Inr s2
        \<and> currentLog s2 = Some 1
        \<and> filter (\<lambda>e. fst e = ''11:00:00'') (heap s2 1) = [(''11:00:00'', ''b'')]
        \<and> getProp (heap s2 1) ''11:00:00'' = Some ''b''
        \<and> length (heap s2 1) = length (heap s1 1))"
proof -
  have h1: "currentLog state_two_days = Some 1" by (simp add: state_two_days_def)
  have h2: "distinct (map fst (heap state_two_days 1))" by (simp add: state_two_days_def)
  have h3: "trim ''a'' \<noteq> []" by (simp add: trim_def isWhiteSpace_def)
  have t: "trim '' b '' = ''b''" by (simp add: trim_def isWhiteSpace_def)
  have h4: "trim '' b '' \<noteq> []" by (simp add: t)
  have c1: "currentTime date_morning = ''11:00:00''" by code_simp
  have c2: "currentTime date_morning_later = ''11:00:00''" by code_simp
  have h5: "currentTime date_morning = currentTime date_morning_later" by (simp add: c1 c2)
  from same_second_last_write_wins [OF h1 h2 h3 h4 h5] h1 h2 h3 h4 h5
  show ?thesis unfolding t c2 by blast
qed

section \<open>Sorted lists\<close>

lemma byKeyDesc_le: "byKeyDesc x y \<le> 0 \<longleftrightarrow> fst y \<le> fst x"
  by (auto simp: byKeyDesc_def localeCompare_def)

lemma set_insertBy: "set (insertBy cmp x ys) = insert x (set ys)"
  by (induction ys) auto

lemma set_sortBy: "set (sortBy cmp xs) = set xs"
  by (induction xs) (simp_all add: sortBy_def set_insertBy)

lemma length_insertBy: "length (insertBy cmp x ys) = Suc (length ys)"
  by (induction ys) auto

lemma length_sortBy: "length (sortBy cmp xs) = length xs"
  by (induction xs) (simp_all add: sortBy_def length_insertBy)

lemma sorted_insertBy:
  "sorted_wrt (\<lambda>a b. fst b \<le> fst a) ys \<Longrightarrow>
   sorted_wrt (\<lambda>a b. fst b \<le> fst a) (insertBy byKeyDesc x ys)"
proof (induction ys)
  case Nil
  then show ?case by simp
next
  case (Cons y ys)
  show ?case
  proof (cases "byKeyDesc x y \<le> 0")
    case True
    then have "fst y \<le> fst x" by (simp add: byKeyDesc_le)
    with Cons.prems True show ?thesis by fastforce
  next
    case False
    then have "fst x \<le> fst y" by (simp add: byKeyDesc_le)
    with Cons False show ?thesis by (auto simp: set_insertBy)
  qed
qed

lemma sorted_sortBy: "sorted_wrt (\<lambda>a b. fst b \<le> fst a) (sortBy byKeyDesc xs)"
  by (induction xs) (simp_all add: sortBy_def sorted_insertBy)

lemma keys_descending: "sorted_wrt (\<lambda>a b. b \<le> a) (map fst (sortBy byKeyDesc xs))"
  using sorted_sortBy [of xs] by (simp add: sorted_wrt_map)

section \<open>Rendering\<close>

lemma render_today:
  "todayList (render s r) = sortBy byKeyDesc (heap s r)"
  by (cases "heap s r") (simp_all add: render_def sortBy_def)

lemma render_all:
  "allList (render s r) =
     map (\<lambda>(k, r'). (k, sortBy byKeyDesc (heap s r'))) (sortBy byKeyDesc (logs s))"
  by (cases "logs s") (simp_all add: render_def sortBy_def)

lemma fst_day_entries: "fst \<circ> (\<lambda>(k, r'). (k, f r')) = fst"
  by auto

text \<open>
  C7. In a state whose keys have the formats of day keys and time keys, after
  \<open>updateUIState\<close> the list of today, the list of days and the list of entries inside
  each day are in descending order of their keys; the list of today holds the entries
  of the current day-log, the list of days the days of the collection, and each day its
  entries, all under keys of these formats. Entries at 09:00:00, 14:20:00 and 08:15:00
  come out as 14:20:00, 09:00:00, 08:15:00, and the day 2024-01-16 before 2024-01-15.
\<close>

theorem rendered_lists_descend:
  assumes "currentLog s = Some r" and "wellFormedKeys s"
  shows "(\<exists>s'. updateUIState s = Inr s'
    \<and> sorted_wrt (\<lambda>a b. b \<le> a) (map fst (todayList (panel s')))
    \<and> sorted_wrt (\<lambda>a b. b \<le> a) (map fst (allList (panel s')))
    \<and> (\<forall>day \<in> set (allList (panel s')). sorted_wrt (\<lambda>a b. b \<le> a) (map fst (snd day)))
    \<and> set (todayList (panel s')) = set (heap s r)
    \<and> length (todayList (panel s')) = length (heap s r)
    \<and> set (map fst (allList (panel s'))) = set (map fst (logs s))
    \<and> (\<forall>day \<in> set (allList (panel s')).
          \<exists>r'. (fst day, r') \<in> set (logs s) \<and> set (snd day) = set (heap s r'))
    \<and> list_all isTimeKey (map fst (todayList (panel s')))
    \<and> list_all isDayKey (map fst (allList (panel s')))
    \<and> (\<forall>day \<in> set (allList (panel s')). list_all isTimeKey (map fst (snd day))))
    \<and> map fst (sortBy byKeyDesc [(''09:00:00'', a), (''14:20:00'', b), (''08:15:00'', c)])
        = [''14:20:00'', ''09:00:00'', ''08:15:00'']
    \<and> map fst (sortBy byKeyDesc [(''2024-01-15'', x), (''2024-01-16'', y)])
        = [''2024-01-16'', ''2024-01-15'']"
proof -
  let ?s' = "s\<lparr>panel := render s r\<rparr>"
  have u: "updateUIState s = Inr ?s'" using assms(1) by (rule updateUIState_ok)
  have a: "sorted_wrt (\<lambda>a b. b \<le> a) (map fst (todayList (panel ?s')))"
    by (simp add: render_today keys_descending)
  have b: "sorted_wrt (\<lambda>a b. b \<le> a) (map fst (allList (panel ?s')))"
    by (simp add: render_all fst_day_entries keys_descending)
  have c: "\<forall>day \<in> set (allList (panel ?s')). sorted_wrt (\<lambda>a b. b \<le> a) (map fst (snd day))"
    by (auto simp: render_all keys_descending)
  have d: "set (todayList (panel ?s')) = set (heap s r)"
    by (simp add: render_today set_sortBy)
  have e: "set (map fst (allList (panel ?s'))) = set (map fst (logs s))"
    by (simp add: render_all fst_day_entries set_sortBy)
  have f: "length (todayList (panel ?s')) = length (heap s r)"
    by (simp add: render_today length_sortBy)
  have g: "\<forall>day \<in> set (allList (panel ?s')).
          \<exists>r'. (fst day, r') \<in> set (logs s) \<and> set (snd day) = set (heap s r')"
    by (auto simp: render_all set_sortBy)
  from assms have wf_cur: "\<forall>e \<in> set (heap s r). isTimeKey (fst e)"
    by (simp add: wellFormedKeys_def list_all_iff)
  from assms(2) have wf_days:
    "\<forall>(k, r') \<in> set (logs s). isDayKey k \<and> (\<forall>e \<in> set (heap s r'). isTimeKey (fst e))"
    by (simp add: wellFormedKeys_def list_all_iff split_def)
  have k1: "list_all isTimeKey (map fst (todayList (panel ?s')))"
    using wf_cur d by (simp add: list_all_iff)
  have k2: "list_all isDayKey (map fst (allList (panel ?s')))"
    unfolding list_all_iff e using wf_days by auto
  have k3: "\<forall>day \<in> set (allList (panel ?s')). list_all isTimeKey (map fst (snd day))"
  proof
    fix day assume "day \<in> set (allList (panel ?s'))"
    with g obtain r' where "(fst day, r') \<in> set (logs s)" "set (snd day) = set (heap s r')"
      by blast
    with wf_days show "list_all isTimeKey (map fst (snd day))"
      by (auto simp: list_all_iff)
  qed
  have h: "map fst (sortBy byKeyDesc [(''09:00:00'', a), (''14:20:00'', b), (''08:15:00'', c)])
        = [''14:20:00'', ''09:00:00'', ''08:15:00'']"
    by (simp add: sortBy_def byKeyDesc_def localeCompare_def less_char_def)
  have i: "map fst (sortBy byKeyDesc [(''2024-01-15'', x), (''2024-01-16'', y)])
        = [''2024-01-16'', ''2024-01-15'']"
    by (simp add: sortBy_def byKeyDesc_def localeCompare_def less_char_def)
  from u a b c d f e g k1 k2 k3 have "\<exists>s'. updateUIState s = Inr s'
    \<and> sorted_wrt (\<lambda>a b. b \<le> a) (map fst (todayList (panel s')))
    \<and> sorted_wrt (\<lambda>a b. b \<le> a) (map fst (allList (panel s')))
    \<and> (\<forall>day \<in> set (allList (panel s')). sorted_wrt (\<lambda>a b. b \<le> a) (map fst (snd day)))
    \<and> set (todayList (panel s')) = set (heap s r)
    \<and> length (todayList (panel s')) = length (heap s r)
    \<and> set (map fst (allList (panel s'))) = set (map fst (logs s))
    \<and> (\<forall>day \<in> set (allList (panel s')).
          \<exists>r'. (fst day, r') \<in> set (logs s) \<and> set (snd day) = set (heap s r'))
    \<and> list_all isTimeKey (map fst (todayList (panel s')))
    \<and> list_all isDayKey (map fst (allList (panel s')))
    \<and> (\<forall>day \<in> set (allList (panel s')). list_all isTimeKey (map fst (snd day)))"
    by (intro exI [of _ ?s'] conjI)
  with h i show ?thesis by (intro conjI)
qed

theorem rendered_lists_descend_witness:
  "currentLog state_two_days = Some 1 \<and> wellFormedKeys state_two_days \<and>
   (\<exists>s'. updateUIState state_two_days = Inr s'
    \<and> sorted_wrt (\<lambda>a b. b \<le> a) (map fst (todayList (panel s')))
    \<and> sorted_wrt (\<lambda>a b. b \<le> a) (map fst (allList (panel s')))
    \<and> (\<forall>day \<in> set (allList (panel s')). sorted_wrt (\<lambda>a b. b \<le> a) (map fst (snd day)))
    \<and> map fst (todayList (panel s')) = [''14:20:00'', ''09:00:00'', ''08:15:00'']
    \<and> map fst (allList (panel s')) = [''2024-01-16'', ''2024-01-15''])"
proof -
  have h: "currentLog state_two_days = Some 1" by (simp add: state_two_days_def)
  have w: "wellFormedKeys state_two_days" by code_simp
  from conjunct1 [OF rendered_lists_descend [OF h w]] obtain s' where
    s': "updateUIState state_two_days = Inr s'"
        "sorted_wrt (\<lambda>a b. b \<le> a) (map fst (todayList (panel s')))"
        "sorted_wrt (\<lambda>a b. b \<le> a) (map fst (allList (panel s')))"
        "\<forall>day \<in> set (allList (panel s')). sorted_wrt (\<lambda>a b. b \<le> a) (map fst (snd day))"
    by blast
  have p: "panel s' = render state_two_days 1"
    using s'(1) by (auto simp: updateUIState_ok [OF h])
  have "map fst (todayList (render state_two_days 1)) = [''14:20:00'', ''09:00:00'', ''08:15:00'']"
    by code_simp
  then have t: "map fst (todayList (panel s')) = [''14:20:00'', ''09:00:00'', ''08:15:00'']"
    by (simp only: p)
  have "map fst (allList (render state_two_days 1)) = [''2024-01-16'', ''2024-01-15'']"
    by code_simp
  then have a: "map fst (allList (panel s')) = [''2024-01-16'', ''2024-01-15'']"
    by (simp only: p)
  from s' t a have "\<exists>s'. updateUIState state_two_days = Inr s'
    \<and> sorted_wrt (\<lambda>a b. b \<le> a) (map fst (todayList (panel s')))
    \<and> sorted_wrt (\<lambda>a b. b \<le> a) (map fst (allList (panel s')))
    \<and> (\<forall>day \<in> set (allList (panel s')). sorted_wrt (\<lambda>a b. b \<le> a) (map fst (snd day)))
    \<and> map fst (todayList (panel s')) = [''14:20:00'', ''09:00:00'', ''08:15:00'']
    \<and> map fst (allList (panel s')) = [''2024-01-16'', ''2024-01-15'']"
    by (intro exI [of _ s'] conjI)
  with h w show ?thesis by (intro conjI)
qed

section \<open>The day key\<close>

lemma length_pad: "length (pad w n) = w"
  by (induction w arbitrary: n) simp_all

lemma todayKey_date:
  assumes "civil (Day (timeValue d)) = (y, m, dd)" and "0 \<le> y" and "y \<le> 9999"
  shows "todayKey d = pad 4 y @ ''-'' @ pad 2 m @ ''-'' @ pad 2 dd"
  using assms
  by (simp add: todayKey_def toISOString_def slice_def dateString_def Let_def length_pad)

text \<open>The offset of local time has no part in the day key.\<close>

lemma todayKey_ignores_offset: "todayKey (d\<lparr>localTZA := z\<rparr>) = todayKey d"
  by (simp add: todayKey_def toISOString_def)

section \<open>Initialisation\<close>

lemma init_first_run:
  "\<exists>s1. popup_init None d s = Inr s1 \<and> part_000_init None d s = Inr s1
     \<and> logs s1 = [(todayKey d, nextRef s)] \<and> currentLog s1 = Some (nextRef s)
     \<and> heap s1 (nextRef s) = []"
  by (simp add: popup_init_def part_000_init_def assignLogs_def latestKey_def falsy_def
      newDay_def alloc_def setProp_def getProp_def saveState_ok Let_def)

lemma part_000_init_ok:
  "\<exists>s' r. part_000_init p d s = Inr s' \<and> currentLog s' = Some r
      \<and> getProp (logs s') (todayKey d) = Some r"
proof -
  let ?s1 = "assignLogs p s"
  let ?s2 = "if getProp (logs ?s1) (todayKey d) = None then newDay (todayKey d) ?s1 else ?s1"
  have "\<exists>r. getProp (logs ?s2) (todayKey d) = Some r"
    by (auto simp: newDay_def alloc_def getProp_setProp split: prod.splits)
  then obtain r where r: "getProp (logs ?s2) (todayKey d) = Some r" ..
  let ?s3 = "?s2\<lparr>currentLog := Some r\<rparr>"
  have cur: "currentLog ?s3 = Some r" by simp
  have "part_000_init p d s = saveState ?s3"
    using r by (simp add: part_000_init_def Let_def)
  with saveState_ok [OF cur] r show ?thesis by simp
qed

text \<open>
  After the callback of the commented variant an entry submitted through \<open>currentLog\<close>
  is read through the collection under today's key, whatever storage held.
\<close>

lemma part_000_entry_in_collection:
  assumes "trim val \<noteq> []"
  shows "\<exists>s1 s2 r. part_000_init p d s = Inr s1 \<and> click val d' s1 = Inr s2
    \<and> currentLog s2 = Some r \<and> getProp (logs s2) (todayKey d) = Some r
    \<and> getProp (serialize s2) (todayKey d) = Some (heap s2 r)
    \<and> getProp (heap s2 r) (currentTime d') = Some (trim val)"
proof -
  from part_000_init_ok obtain s1 r where
    s1: "part_000_init p d s = Inr s1" "currentLog s1 = Some r"
        "getProp (logs s1) (todayKey d) = Some r"
    by blast
  from logEntry_ok [OF s1(2)] obtain s2 where
    s2: "logEntry (trim val) d' s1 = Inr s2"
        "heap s2 = (heap s1)(r := setProp (currentTime d') (trim val) (heap s1 r))"
        "logs s2 = logs s1" "currentLog s2 = Some r"
    by blast
  have c: "click val d' s1 = Inr s2" using assms s2(1) by (simp add: click_nonblank)
  have g: "getProp (logs s2) (todayKey d) = Some r" using s2(3) s1(3) by simp
  have v: "getProp (serialize s2) (todayKey d) = Some (heap s2 r)"
    using g by (simp add: getProp_serialize)
  have e: "getProp (heap s2 r) (currentTime d') = Some (trim val)"
    using s2(2) by (simp add: getProp_setProp)
  from s1(1) c s2(4) g v e show ?thesis by blast
qed

subsection \<open>Loading the collection\<close>

lemma load_props:
  "load c s = (ls, s') \<Longrightarrow>
     map (\<lambda>(k, r). (k, heap s' r)) ls = c
   \<and> distinct (map snd ls)
   \<and> (\<forall>r \<in> snd ` set ls. nextRef s \<le> r \<and> r < nextRef s')
   \<and> nextRef s \<le> nextRef s'
   \<and> (\<forall>r. r < nextRef s \<longrightarrow> heap s' r = heap s r)
   \<and> logs s' = logs s \<and> currentLog s' = currentLog s
   \<and> writes s' = writes s \<and> panel s' = panel s"
proof (induction c arbitrary: s ls s')
  case Nil
  then show ?case by simp
next
  case (Cons kv kvs)
  obtain k v where kv: "kv = (k, v)" by (cases kv)
  let ?s1 = "s\<lparr>heap := (heap s)(nextRef s := v), nextRef := Suc (nextRef s)\<rparr>"
  obtain ls2 s2 where l2: "load kvs ?s1 = (ls2, s2)" by (cases "load kvs ?s1")
  from Cons.prems kv l2 have res: "ls = (k, nextRef s) # ls2" "s' = s2"
    by (simp_all add: alloc_def)
  note ih = Cons.IH [OF l2]
  from ih have keep: "\<forall>r. r < Suc (nextRef s) \<longrightarrow> heap s2 r = heap ?s1 r" by simp
  then have here: "heap s2 (nextRef s) = v" by simp
  from ih have above: "\<forall>r \<in> snd ` set ls2. Suc (nextRef s) \<le> r \<and> r < nextRef s2" by simp
  have vals: "map (\<lambda>(k, r). (k, heap s' r)) ls = kv # kvs"
    using ih res kv here by simp
  have dist: "distinct (map snd ls)"
    using ih res above by force
  have range: "\<forall>r \<in> snd ` set ls. nextRef s \<le> r \<and> r < nextRef s'"
    using ih res above by force
  have mono: "nextRef s \<le> nextRef s'" using ih res by simp
  have old: "\<forall>r. r < nextRef s \<longrightarrow> heap s' r = heap s r"
    using keep res by simp
  have rest: "logs s' = logs s \<and> currentLog s' = currentLog s
      \<and> writes s' = writes s \<and> panel s' = panel s"
    using ih res by simp
  from vals dist range mono old rest show ?case by blast
qed

text \<open>
  After \<open>logs = result.logs || {}\<close> the collection reads as storage held it, and its
  days are objects of their own, allocated before the next free address.
\<close>

lemma assignLogs_props:
  "serialize (assignLogs p s) = (case p of None \<Rightarrow> [] | Some c \<Rightarrow> c)
   \<and> distinct (map snd (logs (assignLogs p s)))
   \<and> (\<forall>r \<in> snd ` set (logs (assignLogs p s)). r < nextRef (assignLogs p s))"
proof -
  let ?c = "case p of None \<Rightarrow> [] | Some c \<Rightarrow> c"
  obtain ls s' where l: "load ?c s = (ls, s')" by (cases "load ?c s")
  then have a: "assignLogs p s = s'\<lparr>logs := ls\<rparr>" by (simp add: assignLogs_def)
  from load_props [OF l] show ?thesis unfolding a by (simp add: serialize_def)
qed

lemma distinct_refs_setProp:
  "distinct (map snd xs) \<Longrightarrow> r \<notin> snd ` set xs \<Longrightarrow> distinct (map snd (setProp k r xs))"
proof (induction xs)
  case Nil
  then show ?case by (simp add: setProp_def)
next
  case (Cons x xs)
  have sub: "snd ` set (setProp k r xs) \<subseteq> insert r (snd ` set xs)"
    by (induction xs) (auto simp: setProp_def)
  from Cons sub show ?case by (auto simp: setProp_def)
qed

lemma newDay_refs:
  assumes "distinct (map snd (logs s))" and "\<forall>r \<in> snd ` set (logs s). r < nextRef s"
  shows "distinct (map snd (logs (newDay k s)))"
proof -
  have "nextRef s \<notin> snd ` set (logs s)" using assms(2) by auto
  with assms(1) show ?thesis by (simp add: newDay_def alloc_def distinct_refs_setProp)
qed

lemma saveState_keeps:
  "saveState s = Inr s' \<Longrightarrow>
   logs s' = logs s \<and> heap s' = heap s \<and> currentLog s' = currentLog s \<and> nextRef s' = nextRef s"
  by (auto simp: saveState_def updateUIState_def split: option.splits)

lemma part_000_init_refs:
  assumes "part_000_init p d s = Inr s'"
  shows "distinct (map snd (logs s'))"
proof -
  let ?s1 = "assignLogs p s"
  let ?s2 = "if getProp (logs ?s1) (todayKey d) = None then newDay (todayKey d) ?s1 else ?s1"
  let ?s3 = "?s2\<lparr>currentLog := getProp (logs ?s2) (todayKey d)\<rparr>"
  have d2: "distinct (map snd (logs ?s2))"
    using assignLogs_props [of p s] by (simp add: newDay_refs)
  have "part_000_init p d s = saveState ?s3" by (simp add: part_000_init_def Let_def)
  with assms have "saveState ?s3 = Inr s'" by simp
  then have "logs s' = logs ?s3" using saveState_keeps by blast
  with d2 show ?thesis by simp
qed

lemma other_key_other_ref:
  assumes "distinct (map snd xs)" and "getProp xs k = Some r" and "k' \<noteq> k"
  shows "getProp xs k' \<noteq> Some r"
proof
  assume "getProp xs k' = Some r"
  then have a: "(k', r) \<in> set xs" by (simp add: getProp_def map_of_SomeD)
  from assms(2) have b: "(k, r) \<in> set xs" by (simp add: getProp_def map_of_SomeD)
  from assms(1) have "inj_on snd (set xs)" by (simp add: distinct_map)
  with a b have "(k', r) = (k, r)"
    using inj_onD [of snd "set xs" "(k', r)" "(k, r)"] by simp
  with assms(3) show False by simp
qed

text \<open>
  After the callback of the commented variant, a submission leaves every day other than
  today as storage held it.
\<close>

lemma part_000_other_days_unchanged:
  assumes "part_000_init p d s = Inr s1" and "click val d' s1 = Inr s2" and "k \<noteq> todayKey d"
  shows "getProp (serialize s2) k = getProp (serialize s1) k"
proof (cases "trim val = []")
  case True
  with assms(2) show ?thesis by (simp add: click_def)
next
  case False
  from part_000_init_ok [of p d s] assms(1) obtain r where
    r: "currentLog s1 = Some r" "getProp (logs s1) (todayKey d) = Some r" by auto
  from logEntry_ok [OF r(1)] obtain t where
    t: "logEntry (trim val) d' s1 = Inr t"
       "heap t = (heap s1)(r := setProp (currentTime d') (trim val) (heap s1 r))"
       "logs t = logs s1"
    by blast
  from False t(1) assms(2) have eq: "s2 = t" by (simp add: click_nonblank)
  have ne: "getProp (logs s1) k \<noteq> Some r"
    using part_000_init_refs [OF assms(1)] r(2) assms(3) by (rule other_key_other_ref)
  show ?thesis
  proof (cases "getProp (logs s1) k")
    case None
    then show ?thesis using t(3) eq by (simp add: getProp_serialize)
  next
    case (Some r')
    with ne have "r' \<noteq> r" by simp
    with Some show ?thesis using t(2,3) eq by (simp add: getProp_serialize)
  qed
qed

subsection \<open>Keys in their formats\<close>

lemma isDigit_digit: "isDigit (digit n)"
proof -
  have "nat (n mod 10) < length ''0123456789''" by simp
  then have "''0123456789'' ! nat (n mod 10) \<in> set ''0123456789''" by (rule nth_mem)
  then show ?thesis by (simp only: isDigit_def digit_def)
qed

lemma pad2: "pad 2 n = [digit (n div 10), digit n]"
  by (simp add: numeral_2_eq_2)

lemma isTimeKey_timeString: "isTimeKey (timeString t)"
  by (simp add: isTimeKey_def matchesFormat_def timeString_def pad2 isDigit_digit)

lemma currentTime_timeString: "currentTime d = timeString (timeValue d + localTZA d)"
  by (simp add: currentTime_def toTimeString_def slice_def Let_def timeString_def length_pad)

lemma isTimeKey_currentTime: "isTimeKey (currentTime d)"
  by (simp add: currentTime_timeString isTimeKey_timeString)

lemma pad4:
  "pad 4 n = [digit (n div 10 div 10 div 10), digit (n div 10 div 10), digit (n div 10), digit n]"
  by (simp add: eval_nat_numeral)

lemma isDayKey_todayKey:
  assumes "civil (Day (timeValue d)) = (y, m, dd)" and "0 \<le> y" and "y \<le> 9999"
  shows "isDayKey (todayKey d)"
  by (simp add: todayKey_date [OF assms] isDayKey_def matchesFormat_def pad2 pad4 isDigit_digit)

lemma time_keys_setProp:
  "list_all (\<lambda>e. isTimeKey (fst e)) obj \<Longrightarrow> isTimeKey k \<Longrightarrow>
   list_all (\<lambda>e. isTimeKey (fst e)) (setProp k v obj)"
  by (induction obj) (auto simp: setProp_def)

text \<open>A submission keeps the keys of the state in their formats.\<close>

lemma wellFormedKeys_click:
  assumes "wellFormedKeys s" and "click val d s = Inr s'"
  shows "wellFormedKeys s'"
proof (cases "trim val = []")
  case True
  with assms show ?thesis by (simp add: click_def)
next
  case False
  with assms(2) have l: "logEntry (trim val) d s = Inr s'" by (simp add: click_nonblank)
  then obtain r where r: "currentLog s = Some r"
    by (cases "currentLog s") (simp_all add: logEntry_def)
  from logEntry_ok [OF r, of "trim val" d] l have
    s': "heap s' = (heap s)(r := setProp (currentTime d) (trim val) (heap s r))"
        "logs s' = logs s" "currentLog s' = Some r"
    by auto
  from assms(1) r have cur: "list_all (\<lambda>e. isTimeKey (fst e)) (heap s r)"
    by (simp add: wellFormedKeys_def)
  have new: "list_all (\<lambda>e. isTimeKey (fst e)) (heap s' r)"
    using cur s'(1) by (simp add: time_keys_setProp isTimeKey_currentTime)
  have "list_all (\<lambda>(k, r'). isDayKey k \<and> list_all (\<lambda>e. isTimeKey (fst e)) (heap s' r')) (logs s')"
    using assms(1) new s'(1,2) by (auto simp: wellFormedKeys_def list_all_iff)
  with new s'(3) show ?thesis by (simp add: wellFormedKeys_def)
qed


lemma set_setProp: "set (setProp k v xs) \<subseteq> insert (k, v) (set xs)"
  by (induction xs) (auto simp: setProp_def)

text \<open>
  The callback of the commented variant ends with every key in its format when the
  keys in storage have their formats and the year of the UTC date has four digits.
\<close>

lemma wellFormedKeys_part_000_init:
  assumes stored: "list_all (\<lambda>(k, v). isDayKey k \<and> list_all (\<lambda>e. isTimeKey (fst e)) v)
                     (case p of None \<Rightarrow> [] | Some c \<Rightarrow> c)"
    and year: "civil (Day (timeValue d)) = (y, m, dd)" "0 \<le> y" "y \<le> 9999"
    and init: "part_000_init p d s = Inr s'"
  shows "wellFormedKeys s'"
proof -
  let ?ok = "\<lambda>st (k, r). isDayKey k \<and> list_all (\<lambda>e. isTimeKey (fst e)) (heap st r)"
  let ?s1 = "assignLogs p s"
  let ?s2 = "if getProp (logs ?s1) (todayKey d) = None then newDay (todayKey d) ?s1 else ?s1"
  let ?s3 = "?s2\<lparr>currentLog := getProp (logs ?s2) (todayKey d)\<rparr>"
  have today: "isDayKey (todayKey d)" using year by (rule isDayKey_todayKey)
  from assignLogs_props [of p s] have
    ser: "serialize ?s1 = (case p of None \<Rightarrow> [] | Some c \<Rightarrow> c)" and
    below: "\<forall>r \<in> snd ` set (logs ?s1). r < nextRef ?s1"
    by simp_all
  have ok1: "\<forall>e \<in> set (logs ?s1). ?ok ?s1 e"
    using stored unfolding ser [symmetric] by (auto simp: serialize_def list_all_iff)
  have ok2: "\<forall>e \<in> set (logs ?s2). ?ok ?s2 e"
  proof (cases "getProp (logs ?s1) (todayKey d) = None")
    case False
    then have "?s2 = ?s1" by (simp only: if_False)
    with ok1 show ?thesis by (simp only:)
  next
    case True
    have "\<forall>e \<in> set (logs (newDay (todayKey d) ?s1)). ?ok (newDay (todayKey d) ?s1) e"
    proof
      fix e assume "e \<in> set (logs (newDay (todayKey d) ?s1))"
      then have "e \<in> insert (todayKey d, nextRef ?s1) (set (logs ?s1))"
        using set_setProp [of "todayKey d" "nextRef ?s1" "logs ?s1"]
        by (auto simp: newDay_def alloc_def)
      then show "?ok (newDay (todayKey d) ?s1) e"
      proof
        assume "e = (todayKey d, nextRef ?s1)"
        with today show ?thesis by (simp add: newDay_def alloc_def)
      next
        assume mem: "e \<in> set (logs ?s1)"
        then have "snd e < nextRef ?s1" using below by auto
        with mem ok1 show ?thesis by (auto simp: newDay_def alloc_def)
      qed
    qed
    with True show ?thesis by simp
  qed
  have "part_000_init p d s = saveState ?s3" by (simp add: part_000_init_def Let_def)
  with init have "saveState ?s3 = Inr s'" by simp
  then have keep: "logs s' = logs ?s2" "heap s' = heap ?s2"
      "currentLog s' = getProp (logs ?s2) (todayKey d)"
    using saveState_keeps [of ?s3 s'] by simp_all
  have days: "list_all (?ok s') (logs s')"
    using ok2 keep by (auto simp: list_all_iff)
  have cur: "case currentLog s' of None \<Rightarrow> True
      | Some r \<Rightarrow> list_all (\<lambda>e. isTimeKey (fst e)) (heap s' r)"
  proof (cases "getProp (logs ?s2) (todayKey d)")
    case None
    with keep(3) show ?thesis by simp
  next
    case (Some r)
    then have "(todayKey d, r) \<in> set (logs ?s2)" by (simp add: getProp_def map_of_SomeD)
    with ok2 have "list_all (\<lambda>e. isTimeKey (fst e)) (heap ?s2 r)" by auto
    with Some keep show ?thesis by simp
  qed
  from days cur show ?thesis by (simp add: wellFormedKeys_def)
qed

subsection \<open>The first run\<close>

text \<open>
  C3. With nothing in storage, after initialisation a submission \<open>val\<close> that is not
  blank is in the collection under today's key and the time key, and the collection
  written to storage holds it.
\<close>

theorem first_run_entry_is_kept:
  assumes "trim val \<noteq> []"
  shows "\<exists>s1 s2 r. popup_init None d s = Inr s1 \<and> part_000_init None d s = Inr s1
    \<and> click val d' s1 = Inr s2
    \<and> keydown \<lparr>key = ''Enter'', shiftKey = False\<rparr> val d' s1 = Inr s2
    \<and> getProp (logs s2) (todayKey d) = Some r
    \<and> getProp (heap s2 r) (currentTime d') = Some (trim val)
    \<and> stored_logs (last (writes s2)) = [(todayKey d, [(currentTime d', trim val)])]"
proof -
  from init_first_run obtain s1 where
    s1: "popup_init None d s = Inr s1" "part_000_init None d s = Inr s1"
        "logs s1 = [(todayKey d, nextRef s)]" "currentLog s1 = Some (nextRef s)"
        "heap s1 (nextRef s) = []"
    by blast
  from logEntry_ok [OF s1(4)] obtain s2 where
    s2: "logEntry (trim val) d' s1 = Inr s2"
        "heap s2 = (heap s1)(nextRef s := setProp (currentTime d') (trim val) (heap s1 (nextRef s)))"
        "logs s2 = logs s1" "writes s2 = writes s1 @ [snapshot s2]"
    by blast
  have c: "click val d' s1 = Inr s2" using assms s2(1) by (simp add: click_nonblank)
  have kd: "keydown \<lparr>key = ''Enter'', shiftKey = False\<rparr> val d' s1 = Inr s2"
    using assms s2(1) by (simp add: keydown_enter_nonblank)
  have g: "getProp (logs s2) (todayKey d) = Some (nextRef s)"
    using s2(3) s1(3) by (simp add: getProp_def)
  have h: "heap s2 (nextRef s) = [(currentTime d', trim val)]"
    using s2(2) s1(5) by (simp add: setProp_def)
  have v: "getProp (heap s2 (nextRef s)) (currentTime d') = Some (trim val)"
    using h by (simp add: getProp_def)
  have w: "stored_logs (last (writes s2)) = [(todayKey d, [(currentTime d', trim val)])]"
    using s2(4) s2(3) s1(3) h by (simp add: snapshot_def serialize_def)
  from s1(1) s1(2) c kd g v w show ?thesis by blast
qed

theorem first_run_entry_is_kept_witness:
  "trim ''a'' \<noteq> [] \<and>
   (\<exists>s1 s2 r. popup_init None date_morning initial = Inr s1
    \<and> part_000_init None date_morning initial = Inr s1
    \<and> click ''a'' date_morning s1 = Inr s2
    \<and> keydown \<lparr>key = ''Enter'', shiftKey = False\<rparr> ''a'' date_morning s1 = Inr s2
    \<and> getProp (logs s2) ''2024-01-16'' = Some r
    \<and> getProp (heap s2 r) ''11:00:00'' = Some ''a''
    \<and> stored_logs (last (writes s2)) = [(''2024-01-16'', [(''11:00:00'', ''a'')])])"
proof -
  have h: "trim ''a'' \<noteq> []" by (simp add: trim_def isWhiteSpace_def)
  have t: "trim ''a'' = ''a''" by (simp add: trim_def isWhiteSpace_def)
  have k: "todayKey date_morning = ''2024-01-16''" by code_simp
  have c: "currentTime date_morning = ''11:00:00''" by code_simp
  from first_run_entry_is_kept [OF h, of date_morning initial date_morning] h
  show ?thesis unfolding t k c by blast
qed

subsection \<open>The callback of \<open>src/popup.js\<close>\<close>

lemma popup_init_ok:
  "\<exists>s' r. popup_init p d s = Inr s' \<and> currentLog s' = Some r"
proof -
  let ?s1 = "assignLogs p s"
  let ?s2 = "if falsy (latestKey ?s1) then newDay (todayKey d) ?s1 else ?s1"
  let ?s3 = "case getProp (logs ?s2) (todayKey d) of
                  Some r \<Rightarrow> ?s2\<lparr>currentLog := Some r\<rparr>
                | None \<Rightarrow> (case alloc [] ?s2 of (r, s') \<Rightarrow> s'\<lparr>currentLog := Some r\<rparr>)"
  have "\<exists>r. currentLog ?s3 = Some r"
    by (simp add: alloc_def split: option.splits)
  then obtain r where cur: "currentLog ?s3 = Some r" ..
  have "popup_init p d s = saveState ?s3"
    by (simp add: popup_init_def Let_def)
  with saveState_ok [OF cur] cur show ?thesis by simp
qed

text \<open>
  When storage holds days but not today, \<open>src/popup.js\<close> leaves today out of the
  collection and lets \<open>currentLog\<close> refer to a new object that the collection does not
  hold.
\<close>

lemma popup_init_stale:
  assumes "\<not> falsy (latestKey (assignLogs p s))"
    and "getProp (logs (assignLogs p s)) (todayKey d) = None"
  shows "\<exists>s'. popup_init p d s = Inr s' \<and> logs s' = logs (assignLogs p s)
    \<and> getProp (logs s') (todayKey d) = None
    \<and> currentLog s' = Some (nextRef (assignLogs p s))"
proof -
  let ?s1 = "assignLogs p s"
  let ?s3 = "?s1\<lparr>heap := (heap ?s1)(nextRef ?s1 := []), nextRef := Suc (nextRef ?s1),
                 currentLog := Some (nextRef ?s1)\<rparr>"
  have cur: "currentLog ?s3 = Some (nextRef ?s1)" by simp
  have "popup_init p d s = saveState ?s3"
    using assms by (simp add: popup_init_def Let_def alloc_def)
  with saveState_ok [OF cur] assms(2) show ?thesis by simp
qed

lemma length_todayKey: "length (todayKey d) = 10"
  by (simp add: todayKey_def toISOString_def slice_def dateString_def timeString_def
      Let_def length_pad split: prod.splits)

lemma todayKey_nonempty: "todayKey d \<noteq> []"
  using length_todayKey [of d] by auto

lemma le_last_sorted: "sorted xs \<Longrightarrow> x \<in> set xs \<Longrightarrow> x \<le> last xs"
  by (induction xs) auto

lemma falsy_latestKey:
  assumes "falsy (latestKey s)" and "k \<in> fst ` set (logs s)"
  shows "k = []"
proof -
  let ?ks = "sort (map fst (logs s))"
  from assms(2) have mem: "k \<in> set ?ks" by simp
  then have "?ks \<noteq> []" by (metis empty_iff empty_set)
  with assms(1) have "last ?ks = []" by (simp add: latestKey_def falsy_def Let_def)
  moreover have "k \<le> last ?ks" using mem by (intro le_last_sorted) simp_all
  ultimately show ?thesis by simp
qed

text \<open>
  The two callbacks give the same state unless storage holds days (a greatest key that
  is not empty) and today is not among them.
\<close>

lemma init_variants_agree:
  assumes "falsy (latestKey (assignLogs p s)) \<or> getProp (logs (assignLogs p s)) (todayKey d) \<noteq> None"
  shows "popup_init p d s = part_000_init p d s"
proof (cases "falsy (latestKey (assignLogs p s))")
  case True
  have "todayKey d \<notin> fst ` set (logs (assignLogs p s))"
    using falsy_latestKey [OF True] todayKey_nonempty by blast
  then have none: "getProp (logs (assignLogs p s)) (todayKey d) = None"
    by (simp add: getProp_def map_of_eq_None_iff)
  show ?thesis
    using True none
    by (simp add: popup_init_def part_000_init_def Let_def newDay_def alloc_def getProp_setProp)
next
  case False
  with assms obtain r where "getProp (logs (assignLogs p s)) (todayKey d) = Some r" by auto
  with False show ?thesis
    by (simp add: popup_init_def part_000_init_def Let_def)
qed

text \<open>
  C1. Storage holds 2024-01-15 and the panel is opened on 2024-01-16: after the callback of
  \<open>src/popup.js\<close>, \<open>currentLog\<close> refers to an object of its own and the collection has
  no property for today; an entry submitted then is in that object and neither in the
  collection nor in the collection written to storage.
\<close>

theorem popup_init_detaches_current_day:
  "\<exists>s s'. popup_init stored_yesterday date_morning initial = Inr s
     \<and> todayKey date_morning = ''2024-01-16''
     \<and> currentLog s = Some 1 \<and> getProp (logs s) ''2024-01-16'' = None
     \<and> click ''a'' date_morning s = Inr s'
     \<and> heap s' 1 = [(''11:00:00'', ''a'')]
     \<and> serialize s' = [(''2024-01-15'', [(''09:00:00'', ''x'')])]
     \<and> stored_logs (last (writes s')) = [(''2024-01-15'', [(''09:00:00'', ''x'')])]"
proof -
  from popup_init_ok obtain s r where
    s: "popup_init stored_yesterday date_morning initial = Inr s" "currentLog s = Some r"
    by blast
  from logEntry_ok [OF s(2)] obtain s' where "logEntry (trim ''a'') date_morning s = Inr s'"
    by blast
  moreover have "trim ''a'' \<noteq> []" by (simp add: trim_def isWhiteSpace_def)
  ultimately have c: "click ''a'' date_morning s = Inr s'" by (simp add: click_nonblank)
  have k: "todayKey date_morning = ''2024-01-16''" by code_simp
  have "(case popup_init stored_yesterday date_morning initial of
           Inl e \<Rightarrow> None
         | Inr s \<Rightarrow> Some (currentLog s, getProp (logs s) ''2024-01-16''))
        = Some (Some 1, None)"
    by code_simp
  with s(1) have a: "currentLog s = Some 1" "getProp (logs s) ''2024-01-16'' = None"
    by simp_all
  have "(case popup_init stored_yesterday date_morning initial of
           Inl e \<Rightarrow> None
         | Inr s \<Rightarrow> (case click ''a'' date_morning s of
             Inl e \<Rightarrow> None
           | Inr s' \<Rightarrow> Some (heap s' 1, serialize s', stored_logs (last (writes s')))))
        = Some ([(''11:00:00'', ''a'')], [(''2024-01-15'', [(''09:00:00'', ''x'')])],
                [(''2024-01-15'', [(''09:00:00'', ''x'')])])"
    by code_simp
  with s(1) c have b: "heap s' 1 = [(''11:00:00'', ''a'')]"
      "serialize s' = [(''2024-01-15'', [(''09:00:00'', ''x'')])]"
      "stored_logs (last (writes s')) = [(''2024-01-15'', [(''09:00:00'', ''x'')])]"
    by simp_all
  from s(1) k a c b show ?thesis by (intro exI [of _ s] exI [of _ s'] conjI)
qed

text \<open>
  C2. At the same input the collection after the callback of \<open>src/popup.js\<close> has the
  one day that storage held; today's key is not a property of it.
\<close>

theorem popup_init_leaves_today_absent:
  "\<exists>s. popup_init stored_yesterday date_morning initial = Inr s
     \<and> map fst (logs s) = [''2024-01-15'']
     \<and> todayKey date_morning \<notin> set (map fst (logs s))"
proof -
  from popup_init_ok obtain s where
    s: "popup_init stored_yesterday date_morning initial = Inr s"
    by blast
  have "(case popup_init stored_yesterday date_morning initial of
           Inl e \<Rightarrow> None
         | Inr s \<Rightarrow> Some (map fst (logs s), todayKey date_morning))
        = Some ([''2024-01-15''], ''2024-01-16'')"
    by code_simp
  with s have "map fst (logs s) = [''2024-01-15'']" "todayKey date_morning = ''2024-01-16''"
    by simp_all
  with s show ?thesis by auto
qed

text \<open>
  C10. At the same input the two callbacks end in different states: the collection of
  \<open>src/popup.js\<close> has one day and \<open>currentLog\<close> is not in it, the collection of the
  commented variant has two days and \<open>currentLog\<close> is the second.
\<close>

theorem init_variants_differ:
  "\<exists>s t. popup_init stored_yesterday date_morning initial = Inr s
     \<and> part_000_init stored_yesterday date_morning initial = Inr t
     \<and> logs s = [(''2024-01-15'', 0)] \<and> currentLog s = Some 1
     \<and> logs t = [(''2024-01-15'', 0), (''2024-01-16'', 1)] \<and> currentLog t = Some 1
     \<and> serialize s \<noteq> serialize t"
proof -
  from popup_init_ok obtain s where
    s: "popup_init stored_yesterday date_morning initial = Inr s"
    by blast
  from part_000_init_ok obtain t where
    t: "part_000_init stored_yesterday date_morning initial = Inr t"
    by blast
  have "(case popup_init stored_yesterday date_morning initial of
           Inl e \<Rightarrow> None
         | Inr s \<Rightarrow> Some (logs s, currentLog s, serialize s))
        = Some ([(''2024-01-15'', 0)], Some 1, [(''2024-01-15'', [(''09:00:00'', ''x'')])])"
    by code_simp
  with s have a: "logs s = [(''2024-01-15'', 0)]" "currentLog s = Some 1"
      "serialize s = [(''2024-01-15'', [(''09:00:00'', ''x'')])]"
    by simp_all
  have "(case part_000_init stored_yesterday date_morning initial of
           Inl e \<Rightarrow> None
         | Inr s \<Rightarrow> Some (logs s, currentLog s, serialize s))
        = Some ([(''2024-01-15'', 0), (''2024-01-16'', 1)], Some 1,
                [(''2024-01-15'', [(''09:00:00'', ''x'')]), (''2024-01-16'', [])])"
    by code_simp
  with t have b: "logs t = [(''2024-01-15'', 0), (''2024-01-16'', 1)]" "currentLog t = Some 1"
      "serialize t = [(''2024-01-15'', [(''09:00:00'', ''x'')]), (''2024-01-16'', [])]"
    by simp_all
  have "serialize s \<noteq> serialize t" by (simp add: a(3) b(3))
  with s t a(1,2) b(1,2) show ?thesis by (intro exI [of _ s] exI [of _ t] conjI)
qed

section \<open>The day key against local time\<close>

text \<open>
  C4. At 2024-01-16T23:30:00Z where local time is one hour ahead, the local date is
  2024-01-17 and the local time 00:30:00, and the day key is 2024-01-16, the date in
  UTC. A first session at 23:00:00 local time on 2024-01-16 stores one entry; a second
  session opened at 00:30:00 the next local day files its entry in the same day-log,
  under the time key 00:30:00, and the list of today shows the entry of 23:00:00 above
  the later one. Both callbacks do so.
\<close>

theorem local_time_filed_under_utc_day:
  "todayKey date_late = ''2024-01-16'' \<and> spec_localDayKey date_late = ''2024-01-17''
   \<and> currentTime date_late = ''00:30:00''
   \<and> todayKey date_evening = ''2024-01-16'' \<and> spec_localDayKey date_evening = ''2024-01-16''
   \<and> currentTime date_evening = ''23:00:00''
   \<and> timeValue date_evening < timeValue date_late
   \<and> (\<exists>s0 s1 s2 s3.
         part_000_init None date_evening initial = Inr s0
       \<and> popup_init None date_evening initial = Inr s0
       \<and> keydown enter ''x'' date_evening s0 = Inr s1
       \<and> Some (stored_logs (last (writes s1))) = stored_evening
       \<and> part_000_init stored_evening date_late initial = Inr s2
       \<and> popup_init stored_evening date_late initial = Inr s2
       \<and> keydown enter ''a'' date_late s2 = Inr s3
       \<and> wellFormedKeys s3
       \<and> serialize s3 = [(''2024-01-16'', [(''23:00:00'', ''x''), (''00:30:00'', ''a'')])]
       \<and> todayList (panel s3) = [(''23:00:00'', ''x''), (''00:30:00'', ''a'')])"
proof -
  have keys: "todayKey date_late = ''2024-01-16''" "spec_localDayKey date_late = ''2024-01-17''"
      "currentTime date_late = ''00:30:00''"
      "todayKey date_evening = ''2024-01-16''" "spec_localDayKey date_evening = ''2024-01-16''"
      "currentTime date_evening = ''23:00:00''"
    by code_simp+
  have later: "timeValue date_evening < timeValue date_late"
    by (simp add: date_evening_def date_late_def)
  have tx: "trim ''x'' \<noteq> []" and ta: "trim ''a'' \<noteq> []"
    by (simp_all add: trim_def isWhiteSpace_def)
  from init_first_run [of date_evening initial] obtain s0 where
    s0: "popup_init None date_evening initial = Inr s0"
        "part_000_init None date_evening initial = Inr s0"
        "currentLog s0 = Some (nextRef initial)"
    by blast
  from logEntry_ok [OF s0(3)] obtain s1 where "logEntry (trim ''x'') date_evening s0 = Inr s1"
    by blast
  with tx have s1: "keydown enter ''x'' date_evening s0 = Inr s1"
    by (simp add: enter_def keydown_enter_nonblank)
  from part_000_init_ok [of stored_evening date_late initial] obtain s2 r where
    s2: "part_000_init stored_evening date_late initial = Inr s2" "currentLog s2 = Some r"
    by blast
  have "getProp (logs (assignLogs stored_evening initial)) (todayKey date_late) \<noteq> None"
    by code_simp
  then have "popup_init stored_evening date_late initial = part_000_init stored_evening date_late initial"
    by (intro init_variants_agree) simp
  with s2(1) have s2p: "popup_init stored_evening date_late initial = Inr s2" by simp
  from logEntry_ok [OF s2(2)] obtain s3 where "logEntry (trim ''a'') date_late s2 = Inr s3"
    by blast
  with ta have s3: "keydown enter ''a'' date_late s2 = Inr s3"
    by (simp add: enter_def keydown_enter_nonblank)
  have "(case part_000_init None date_evening initial of
           Inl e \<Rightarrow> None
         | Inr s0 \<Rightarrow> (case keydown enter ''x'' date_evening s0 of
             Inl e \<Rightarrow> None
           | Inr s1 \<Rightarrow> Some (Some (stored_logs (last (writes s1))))))
        = Some stored_evening"
    by code_simp
  with s0(2) s1 have first: "Some (stored_logs (last (writes s1))) = stored_evening"
    by simp
  have "(case part_000_init stored_evening date_late initial of
           Inl e \<Rightarrow> None
         | Inr s2 \<Rightarrow> (case keydown enter ''a'' date_late s2 of
             Inl e \<Rightarrow> None
           | Inr s3 \<Rightarrow> Some (wellFormedKeys s3, serialize s3, todayList (panel s3))))
        = Some (True, [(''2024-01-16'', [(''23:00:00'', ''x''), (''00:30:00'', ''a'')])],
                [(''23:00:00'', ''x''), (''00:30:00'', ''a'')])"
    by code_simp
  with s2(1) s3 have second: "wellFormedKeys s3"
      "serialize s3 = [(''2024-01-16'', [(''23:00:00'', ''x''), (''00:30:00'', ''a'')])]"
      "todayList (panel s3) = [(''23:00:00'', ''x''), (''00:30:00'', ''a'')]"
    by simp_all
  from s0(2) s0(1) s1 first s2(1) s2p s3 second
  have "\<exists>s0 s1 s2 s3.
         part_000_init None date_evening initial = Inr s0
       \<and> popup_init None date_evening initial = Inr s0
       \<and> keydown enter ''x'' date_evening s0 = Inr s1
       \<and> Some (stored_logs (last (writes s1))) = stored_evening
       \<and> part_000_init stored_evening date_late initial = Inr s2
       \<and> popup_init stored_evening date_late initial = Inr s2
       \<and> keydown enter ''a'' date_late s2 = Inr s3
       \<and> wellFormedKeys s3
       \<and> serialize s3 = [(''2024-01-16'', [(''23:00:00'', ''x''), (''00:30:00'', ''a'')])]
       \<and> todayList (panel s3) = [(''23:00:00'', ''x''), (''00:30:00'', ''a'')]"
    by (intro exI [of _ s0] exI [of _ s1] exI [of _ s2] exI [of _ s3] conjI)
  with keys later show ?thesis by (intro conjI)
qed

end
